theory Spec2Isabelle
  imports Complex_Main "HOL-Library.Multiset"
begin

section \<open>Rural Explorer: record normalisation and derived metrics (js/app.js)\<close>

text \<open>
  The development embeds the data pipeline of \<^verbatim>\<open>js/app.js\<close> (v2.3): \<^verbatim>\<open>extractURL\<close>, the
  row normaliser and retention filter inside \<^verbatim>\<open>loadExcelData\<close>, the sidebar aggregation
  of \<^verbatim>\<open>renderAnalysis\<close>, and the per-record price-per-acre values computed by
  \<^verbatim>\<open>renderListings\<close> and \<^verbatim>\<open>renderChart\<close>.
\<close>

subsection \<open>JavaScript numbers\<close>

text \<open>
  A JavaScript number is \<open>NaN\<close>, an infinity, or a finite value. Finite values are kept
  as exact rationals: binary rounding, overflow to an infinity, underflow to zero and the
  sign of zero are outside this model. Every operator below follows IEEE 754 on the
  special values.
\<close>

datatype jsnum = NaN | NInf | Fin rat | PInf

fun jadd :: "jsnum \<Rightarrow> jsnum \<Rightarrow> jsnum" where
  "jadd NaN _ = NaN"
| "jadd _ NaN = NaN"
| "jadd PInf NInf = NaN"
| "jadd NInf PInf = NaN"
| "jadd PInf _ = PInf"
| "jadd _ PInf = PInf"
| "jadd NInf _ = NInf"
| "jadd _ NInf = NInf"
| "jadd (Fin a) (Fin b) = Fin (a + b)"

fun jneg :: "jsnum \<Rightarrow> jsnum" where
  "jneg NaN = NaN"
| "jneg PInf = NInf"
| "jneg NInf = PInf"
| "jneg (Fin a) = Fin (- a)"

definition jsub :: "jsnum \<Rightarrow> jsnum \<Rightarrow> jsnum" where
  "jsub a b = jadd a (jneg b)"

text \<open>
  Division. A finite non-zero value over zero is an infinity, zero over zero and an
  infinity over an infinity are \<open>NaN\<close>, a finite value over an infinity is zero.
\<close>

fun jdiv :: "jsnum \<Rightarrow> jsnum \<Rightarrow> jsnum" where
  "jdiv NaN _ = NaN"
| "jdiv _ NaN = NaN"
| "jdiv (Fin x) (Fin y) =
     (if y = 0 then (if x = 0 then NaN else if 0 < x then PInf else NInf) else Fin (x / y))"
| "jdiv (Fin x) _ = Fin 0"
| "jdiv PInf (Fin y) = (if y < 0 then NInf else PInf)"
| "jdiv NInf (Fin y) = (if y < 0 then PInf else NInf)"
| "jdiv _ _ = NaN"

text \<open>The relational operator \<open>a > b\<close>: false as soon as one side is \<open>NaN\<close>.\<close>

fun jgt :: "jsnum \<Rightarrow> jsnum \<Rightarrow> bool" where
  "jgt NaN _ = False"
| "jgt _ NaN = False"
| "jgt PInf b = (b \<noteq> PInf)"
| "jgt NInf _ = False"
| "jgt (Fin a) NInf = True"
| "jgt (Fin a) PInf = False"
| "jgt (Fin a) (Fin b) = (b < a)"

definition isNaN :: "jsnum \<Rightarrow> bool" where
  "isNaN x = (x = NaN)"

text \<open>\<^verbatim>\<open>Math.round\<close>: the nearest integer, ties towards plus infinity.\<close>

fun Math_round :: "jsnum \<Rightarrow> jsnum" where
  "Math_round (Fin a) = Fin (of_int \<lfloor>a + 1 / 2\<rfloor>)"
| "Math_round x = x"

text \<open>\<^verbatim>\<open>x || 0\<close> on a number: \<open>NaN\<close> and zero are falsy.\<close>

definition or_zero :: "jsnum \<Rightarrow> jsnum" where
  "or_zero x = (if x = NaN \<or> x = Fin 0 then Fin 0 else x)"

subsection \<open>Strings and number parsing\<close>

text \<open>
  Strings are lists of code units; the model covers the code units below 256. The
  white space of \<^verbatim>\<open>\s\<close>, of \<^verbatim>\<open>trim\<close> and of the number parsers is then TAB, LF, VT, FF,
  CR, SPACE and NBSP.
\<close>

definition is_space :: "char \<Rightarrow> bool" where
  "is_space c = ((of_char c :: nat) \<in> {9, 10, 11, 12, 13, 32, 160})"

definition is_digit :: "char \<Rightarrow> bool" where
  "is_digit c = (48 \<le> (of_char c :: nat) \<and> (of_char c :: nat) \<le> 57)"

definition digit_val :: "char \<Rightarrow> int" where
  "digit_val c = of_char c - 48"

definition digits_val :: "string \<Rightarrow> int" where
  "digits_val ds = foldl (\<lambda>acc c. 10 * acc + digit_val c) 0 ds"

definition trim_start :: "string \<Rightarrow> string" where
  "trim_start s = dropWhile is_space s"

definition trim :: "string \<Rightarrow> string" where
  "trim s = rev (dropWhile is_space (rev (dropWhile is_space s)))"

definition startsWith :: "string \<Rightarrow> string \<Rightarrow> bool" where
  "startsWith s p = (take (length p) s = p)"

text \<open>Ten to an integer power, as a rational.\<close>

definition pow10 :: "int \<Rightarrow> rat" where
  "pow10 e = (if 0 \<le> e then 10 ^ nat e else 1 / 10 ^ nat (- e))"

text \<open>
  The optional \<^verbatim>\<open>ExponentPart\<close> of a decimal literal: \<^verbatim>\<open>e\<close> or \<^verbatim>\<open>E\<close>, an optional sign and at
  least one digit. Without a digit there is no exponent part and the exponent is 0.
\<close>

definition exponent_part :: "string \<Rightarrow> int" where
  "exponent_part s =
     (case s of
        [] \<Rightarrow> 0
      | c # t \<Rightarrow>
          if c = CHR ''e'' \<or> c = CHR ''E'' then
            (case t of
               [] \<Rightarrow> 0
             | d # u \<Rightarrow>
                 if d = CHR ''-'' then - digits_val (takeWhile is_digit u)
                 else if d = CHR ''+'' then digits_val (takeWhile is_digit u)
                 else digits_val (takeWhile is_digit t))
          else 0)"

text \<open>
  The longest prefix that is a \<^verbatim>\<open>StrUnsignedDecimalLiteral\<close>: \<^verbatim>\<open>Infinity\<close>, or digits with an
  optional fraction and exponent, where the integer part or the fraction has a digit.
\<close>

definition unsigned_decimal :: "string \<Rightarrow> jsnum" where
  "unsigned_decimal s =
     (if startsWith s ''Infinity'' then PInf
      else
        let ip = takeWhile is_digit s;
            r1 = dropWhile is_digit s;
            fp = (case r1 of [] \<Rightarrow> [] | c # t \<Rightarrow> if c = CHR ''.'' then takeWhile is_digit t else []);
            r2 = (case r1 of [] \<Rightarrow> [] | c # t \<Rightarrow> if c = CHR ''.'' then dropWhile is_digit t else r1)
        in if ip = [] \<and> fp = [] then NaN
           else Fin (rat_of_int (digits_val (ip @ fp))
                       * pow10 (exponent_part r2 - int (length fp))))"

text \<open>\<^verbatim>\<open>parseFloat\<close> on a string: leading white space is skipped, then an optional sign.\<close>

definition parseFloat_str :: "string \<Rightarrow> jsnum" where
  "parseFloat_str s =
     (case trim_start s of
        [] \<Rightarrow> NaN
      | c # t \<Rightarrow>
          if c = CHR ''-'' then jneg (unsigned_decimal t)
          else if c = CHR ''+'' then unsigned_decimal t
          else unsigned_decimal (c # t))"

text \<open>
  \<^verbatim>\<open>parseInt(s, 10)\<close> on a string: leading white space, an optional sign, then the longest
  run of decimal digits; \<open>NaN\<close> when that run is empty.
\<close>

definition parseInt_str :: "string \<Rightarrow> jsnum" where
  "parseInt_str s =
     (let S = trim_start s;
          neg = (S \<noteq> [] \<and> hd S = CHR ''-'');
          S' = (if S \<noteq> [] \<and> (hd S = CHR ''-'' \<or> hd S = CHR ''+'') then tl S else S);
          Z = takeWhile is_digit S'
      in if Z = [] then NaN
         else if neg then Fin (- rat_of_int (digits_val Z))
         else Fin (rat_of_int (digits_val Z)))"

subsection \<open>Cell values and raw rows\<close>

text \<open>
  A cell read by the spreadsheet reader in raw mode is a string, a number or a boolean;
  a header missing from a row reads as \<^verbatim>\<open>undefined\<close>.
\<close>

datatype jsval = Undefined | Text string | Number jsnum | Boolean bool

type_synonym rawrow = "string \<rightharpoonup> jsval"

definition get_cell :: "rawrow \<Rightarrow> string \<Rightarrow> jsval" where
  "get_cell row k = (case row k of None \<Rightarrow> Undefined | Some v \<Rightarrow> v)"

text \<open>
  \<^verbatim>\<open>ToString\<close>. The digits that \<^verbatim>\<open>Number::toString\<close> prints for a number depend on its
  binary representation, so that function is a parameter \<open>nts\<close> of the model.
\<close>

fun ToString :: "(jsnum \<Rightarrow> string) \<Rightarrow> jsval \<Rightarrow> string" where
  "ToString nts Undefined = ''undefined''"
| "ToString nts (Text s) = s"
| "ToString nts (Number x) = nts x"
| "ToString nts (Boolean b) = (if b then ''true'' else ''false'')"

fun truthy :: "jsval \<Rightarrow> bool" where
  "truthy Undefined = False"
| "truthy (Text s) = (s \<noteq> [])"
| "truthy (Number x) = (x \<noteq> NaN \<and> x \<noteq> Fin 0)"
| "truthy (Boolean b) = b"

definition parseFloat :: "(jsnum \<Rightarrow> string) \<Rightarrow> jsval \<Rightarrow> jsnum" where
  "parseFloat nts v = parseFloat_str (ToString nts v)"

definition parseInt :: "(jsnum \<Rightarrow> string) \<Rightarrow> jsval \<Rightarrow> jsnum" where
  "parseInt nts v = parseInt_str (ToString nts v)"

subsection \<open>URL extraction (\<^verbatim>\<open>extractURL\<close>)\<close>

text \<open>
  The regular expression \<^verbatim>\<open>/=HYPERLINK\(\s*"([^"]+)"/i\<close>. With the \<^verbatim>\<open>i\<close> flag a pattern
  letter matches itself and its lower-case form; a code unit of 128 or more never
  matches an ASCII pattern character.
\<close>

definition canonicalize :: "char \<Rightarrow> char" where
  "canonicalize c =
     (if 97 \<le> (of_char c :: nat) \<and> (of_char c :: nat) \<le> 122
      then char_of ((of_char c :: nat) - 32) else c)"

definition hyperlink_token :: string where
  "hyperlink_token = ''=HYPERLINK(''"

text \<open>The literal part of the pattern, matched at the start of the input; the rest is returned.\<close>

fun match_literal :: "string \<Rightarrow> string \<Rightarrow> string option" where
  "match_literal [] s = Some s"
| "match_literal (p # ps) [] = None"
| "match_literal (p # ps) (c # cs) =
     (if canonicalize c = canonicalize p then match_literal ps cs else None)"

text \<open>
  One attempt of the matcher at the start of the input, giving capture group 1. Both
  quantifiers are greedy, and neither can give a character back with success: the
  character after \<^verbatim>\<open>\s*\<close> must be a quote, which is no white space, and the character
  after \<^verbatim>\<open>[^"]+\<close> must be a quote, which the class excludes.
\<close>

definition hyperlink_at :: "string \<Rightarrow> string option" where
  "hyperlink_at s =
     (case match_literal hyperlink_token s of
        None \<Rightarrow> None
      | Some r \<Rightarrow>
          (case dropWhile is_space r of
             [] \<Rightarrow> None
           | q # t \<Rightarrow>
               if q \<noteq> CHR 0x22 then None
               else
                 let body = takeWhile (\<lambda>c. c \<noteq> CHR 0x22) t;
                     rest = dropWhile (\<lambda>c. c \<noteq> CHR 0x22) t
                 in if body = [] \<or> rest = [] then None else Some body))"

text \<open>\<^verbatim>\<open>String.prototype.match\<close> without the \<^verbatim>\<open>g\<close> flag: the leftmost position that matches.\<close>

fun hyperlink_match :: "string \<Rightarrow> string option" where
  "hyperlink_match [] = hyperlink_at []"
| "hyperlink_match (c # cs) =
     (case hyperlink_at (c # cs) of
        Some u \<Rightarrow> Some u
      | None \<Rightarrow> hyperlink_match cs)"

text \<open>
  \<^verbatim>\<open>extractURL\<close>. A falsy or non-string cell gives \<^verbatim>\<open>'#'\<close>; then the formula pattern is
  tried, then the plain-URL prefixes. Group 1 of a match is never empty, so
  \<^verbatim>\<open>match && match[1]\<close> holds exactly when there is a match.
\<close>

definition extractURL :: "jsval \<Rightarrow> string" where
  "extractURL cellValue =
     (case cellValue of
        Text s \<Rightarrow>
          if s = [] then ''#''
          else
            (case hyperlink_match s of
               Some u \<Rightarrow> u
             | None \<Rightarrow>
                 if startsWith s ''http://'' \<or> startsWith s ''https://'' then s
                 else ''#'')
      | _ \<Rightarrow> ''#'')"

text \<open>
  The shape the pattern describes, stated on its own: the token in any letter case, white
  space, and a non-empty quoted string \<open>u\<close> without a quote inside. \<open>formula_shape s u\<close>
  says that \<open>s\<close> starts with such a formula; \<open>has_hyperlink_formula s\<close> that one starts
  somewhere in \<open>s\<close>.
\<close>

definition formula_shape :: "string \<Rightarrow> string \<Rightarrow> bool" where
  "formula_shape s u =
     (\<exists>kw ws rest. s = kw @ ws @ CHR 0x22 # u @ CHR 0x22 # rest
        \<and> map canonicalize kw = map canonicalize hyperlink_token
        \<and> (\<forall>c \<in> set ws. is_space c) \<and> u \<noteq> [] \<and> CHR 0x22 \<notin> set u)"

definition has_hyperlink_formula :: "string \<Rightarrow> bool" where
  "has_hyperlink_formula s = (\<exists>pre t u. s = pre @ t \<and> formula_shape t u)"

subsection \<open>The row normaliser and the retention filter (\<^verbatim>\<open>loadExcelData\<close>)\<close>

text \<open>
  The record built for one row. The fields \<open>pid\<close> and \<open>ptype\<close> are the source's \<^verbatim>\<open>id\<close> and
  \<^verbatim>\<open>type\<close>; \<open>normalize_row\<close> is the arrow function given to \<^verbatim>\<open>map\<close>.
\<close>

record property =
  pid :: nat
  address :: string
  price :: jsnum
  acres :: jsnum
  llmScore :: jsnum
  lat :: jsnum
  lng :: jsnum
  driveTime :: jsnum
  url :: string
  ptype :: string

text \<open>\<^verbatim>\<open>(v || d).toString().trim()\<close> for a string default \<open>d\<close>.\<close>

definition text_or :: "(jsnum \<Rightarrow> string) \<Rightarrow> jsval \<Rightarrow> string \<Rightarrow> string" where
  "text_or nts v d = trim (if truthy v then ToString nts v else d)"

text \<open>The callback of \<^verbatim>\<open>rawJson.map\<close>: one row and its index to one record.\<close>

definition normalize_row :: "(jsnum \<Rightarrow> string) \<Rightarrow> rawrow \<Rightarrow> nat \<Rightarrow> property" where
  "normalize_row nts row index =
     (let price' = or_zero (parseFloat nts (get_cell row ''Price''));
          acres' = or_zero (parseFloat nts (get_cell row ''Acres''));
          lat' = parseFloat nts (get_cell row ''Latitude'');
          lng' = parseFloat nts (get_cell row ''Longitude'');
          driveTime' = or_zero (parseInt nts (get_cell row ''Drive Dist (mi)''));
          llmScore' = or_zero (parseInt nts (get_cell row ''LLM Score''));
          address' = text_or nts (get_cell row ''Address'') ''Unnamed Property'';
          city = text_or nts (get_cell row ''City'') [];
          state = text_or nts (get_cell row ''State'') [];
          type' = text_or nts (get_cell row ''Type'') ''Land'';
          url' = extractURL (get_cell row ''Property URL Link'');
          fullAddress =
            (if city \<noteq> [] \<and> state \<noteq> [] then address' @ '', '' @ city @ '', '' @ state
             else address')
      in \<lparr> pid = index, address = fullAddress, price = price', acres = acres',
           llmScore = llmScore', lat = lat', lng = lng', driveTime = driveTime',
           url = url', ptype = type' \<rparr>)"

text \<open>The predicate of \<^verbatim>\<open>.filter\<close>.\<close>

definition valid :: "property \<Rightarrow> bool" where
  "valid p = (jgt (price p) (Fin 0) \<and> \<not> isNaN (lat p) \<and> \<not> isNaN (lng p))"

text \<open>
  The data part of \<^verbatim>\<open>loadExcelData\<close>: the rows of the first sheet are mapped with their
  indices and filtered; the result becomes \<^verbatim>\<open>currentData\<close>.
\<close>

definition loadExcelData :: "(jsnum \<Rightarrow> string) \<Rightarrow> rawrow list \<Rightarrow> property list" where
  "loadExcelData nts rawJson =
     filter valid (map (\<lambda>index. normalize_row nts (rawJson ! index) index) [0..<length rawJson])"

text \<open>
  A cell that holds no number: absent, a boolean, or text that after leading white space
  and one optional sign starts neither with a digit, nor with a decimal point and a
  digit, nor with \<^verbatim>\<open>Infinity\<close>.
\<close>

definition no_literal :: "string \<Rightarrow> bool" where
  "no_literal t =
     (\<not> startsWith t ''Infinity''
      \<and> (case t of
           [] \<Rightarrow> True
         | c # u \<Rightarrow> \<not> is_digit c \<and> \<not> (c = CHR ''.'' \<and> u \<noteq> [] \<and> is_digit (hd u))))"

definition lacks_number :: "string \<Rightarrow> bool" where
  "lacks_number s =
     (let S = trim_start s;
          S' = (if S \<noteq> [] \<and> (hd S = CHR ''-'' \<or> hd S = CHR ''+'') then tl S else S)
      in no_literal S')"

fun non_numeric :: "jsval \<Rightarrow> bool" where
  "non_numeric Undefined = True"
| "non_numeric (Text s) = lacks_number s"
| "non_numeric (Boolean b) = True"
| "non_numeric (Number n) = False"

subsection \<open>Sidebar aggregation (\<^verbatim>\<open>renderAnalysis\<close>)\<close>

text \<open>
  \<^verbatim>\<open>Array.prototype.sort\<close> with a comparator is stable, and a comparator result that is
  \<open>NaN\<close> counts as zero. For a comparator that is a consistent ordering every stable sort
  returns the same array; the model is insertion from the right, each element going
  behind the elements it compares greater than.
\<close>

fun insert_by :: "('a \<Rightarrow> 'a \<Rightarrow> jsnum) \<Rightarrow> 'a \<Rightarrow> 'a list \<Rightarrow> 'a list" where
  "insert_by cmp a [] = [a]"
| "insert_by cmp a (b # bs) =
     (if jgt (cmp a b) (Fin 0) then b # insert_by cmp a bs else a # b # bs)"

definition js_sort :: "('a \<Rightarrow> 'a \<Rightarrow> jsnum) \<Rightarrow> 'a list \<Rightarrow> 'a list" where
  "js_sort cmp xs = foldr (insert_by cmp) xs []"

datatype error = TypeError

text \<open>
  What \<^verbatim>\<open>renderAnalysis\<close> computes and writes: \<^verbatim>\<open>#avgPrice\<close> shows the rounded \<open>avgPrice\<close>,
  \<^verbatim>\<open>#avgAcres\<close> and the narrative the rounded \<open>avgPricePerAcre\<close>, the narrative names
  \<open>topPick\<close> and the number of listings, and \<^verbatim>\<open>#topPicks\<close> lists \<open>picks\<close>. The field
  \<open>ranked\<close> is the source's array \<^verbatim>\<open>sorted\<close>.
\<close>

record analysis =
  avgPrice :: jsnum
  avgPricePerAcre :: jsnum
  ranked :: "property list"
  topPick :: property
  listings :: nat
  picks :: "property list"

text \<open>
  \<^verbatim>\<open>renderAnalysis\<close>. The state \<open>sidebar\<close> is what the four elements show: \<open>None\<close> while
  they hold the content of the page, otherwise the analysis written last. On an empty
  collection the function returns before anything is computed or written, so the state
  stays as it is. Reading a field of \<^verbatim>\<open>sorted[0]\<close> throws when the array is empty.
\<close>

definition renderAnalysis :: "analysis option \<Rightarrow> property list \<Rightarrow> error + analysis option" where
  "renderAnalysis sidebar currentData =
     (if length currentData = 0 then Inr sidebar
      else
        let n = Fin (rat_of_nat (length currentData));
            avgPrice' = jdiv (foldl (\<lambda>s p. jadd s (price p)) (Fin 0) currentData) n;
            avgPricePerAcre' =
              jdiv (foldl (\<lambda>s p. jadd s (if jgt (acres p) (Fin 0) then jdiv (price p) (acres p)
                                           else Fin 0)) (Fin 0) currentData) n;
            sorted' = js_sort (\<lambda>a b. jsub (llmScore b) (llmScore a)) currentData
        in (case sorted' of
              [] \<Rightarrow> Inl TypeError
            | first # _ \<Rightarrow>
                Inr (Some \<lparr> avgPrice = avgPrice', avgPricePerAcre = avgPricePerAcre',
                            ranked = sorted', topPick = first,
                            listings = length currentData, picks = take 3 sorted' \<rparr>)))"

text \<open>
  The aggregates in the words of the specification: the sum over all records, in any
  order, divided by the number of records.
\<close>

instantiation jsnum :: comm_monoid_add
begin

definition zero_jsnum :: jsnum where
  "zero_jsnum = Fin 0"

definition plus_jsnum :: "jsnum \<Rightarrow> jsnum \<Rightarrow> jsnum" where
  "plus_jsnum a b = jadd a b"

instance
proof
  fix a b c :: jsnum
  show "a + b + c = a + (b + c)"
    unfolding plus_jsnum_def by (cases a; cases b; cases c) simp_all
  show "a + b = b + a"
    unfolding plus_jsnum_def by (cases a; cases b) simp_all
  show "0 + a = a"
    unfolding plus_jsnum_def zero_jsnum_def by (cases a) simp_all
qed

end

definition per_acre :: "property \<Rightarrow> jsnum" where
  "per_acre p = (if jgt (acres p) (Fin 0) then jdiv (price p) (acres p) else Fin 0)"

definition mean_price :: "property list \<Rightarrow> jsnum" where
  "mean_price xs = jdiv (\<Sum>p \<in># mset xs. price p) (Fin (rat_of_nat (size (mset xs))))"

definition mean_per_acre :: "property list \<Rightarrow> jsnum" where
  "mean_per_acre xs = jdiv (\<Sum>p \<in># mset xs. per_acre p) (Fin (rat_of_nat (size (mset xs))))"

text \<open>The ranking of the specification: higher score first, equal scores by ascending id.\<close>

definition ranks_before :: "property \<Rightarrow> property \<Rightarrow> bool" where
  "ranks_before a b =
     (jgt (llmScore a) (llmScore b) \<or> (llmScore a = llmScore b \<and> pid a < pid b))"

subsection \<open>Per-record price per acre (\<^verbatim>\<open>renderListings\<close>, \<^verbatim>\<open>renderChart\<close>)\<close>

text \<open>
  The text a card shows for price per acre: a number formatted by \<^verbatim>\<open>toLocaleString\<close>, or
  the dash literal of the source.
\<close>

datatype display = LocaleString jsnum | EmDash

record listing_card =
  card_llmScore :: jsnum
  card_type :: string
  card_price :: display
  card_address :: string
  card_acres :: jsnum
  card_driveTime :: jsnum
  pricePerAcre :: display
  href :: string

definition renderListings :: "property list \<Rightarrow> listing_card list" where
  "renderListings currentData =
     map (\<lambda>p.
        \<lparr> card_llmScore = llmScore p, card_type = ptype p,
          card_price = LocaleString (price p), card_address = address p,
          card_acres = acres p, card_driveTime = driveTime p,
          pricePerAcre =
            (if jgt (acres p) (Fin 0) then LocaleString (Math_round (jdiv (price p) (acres p)))
             else EmDash),
          href = url p \<rparr>) currentData"

text \<open>\<^verbatim>\<open>Math.max\<close> of two numbers.\<close>

definition Math_max :: "jsnum \<Rightarrow> jsnum \<Rightarrow> jsnum" where
  "Math_max a b = (if a = NaN \<or> b = NaN then NaN else if jgt b a then b else a)"

text \<open>A bubble of the chart: the fields are the source's \<^verbatim>\<open>x\<close>, \<^verbatim>\<open>y\<close> and \<^verbatim>\<open>r\<close>.\<close>

record point =
  point_x :: jsnum
  point_y :: jsnum
  point_r :: jsnum

definition renderChart :: "property list \<Rightarrow> point list" where
  "renderChart currentData =
     map (\<lambda>p.
        \<lparr> point_x = driveTime p,
          point_y = (if jgt (acres p) (Fin 0) then Math_round (jdiv (price p) (acres p)) else Fin 0),
          point_r = Math_max (Fin 4) (jdiv (llmScore p) (Fin 8)) \<rparr>) currentData"

subsection \<open>Example rows\<close>

text \<open>The two rows of the first end-to-end scenario of the specification.\<close>

definition scenario1_rows :: "rawrow list" where
  "scenario1_rows =
     [map_of [(''Price'', Text ''300000''), (''Acres'', Text ''10''),
              (''Latitude'', Text ''38.9''), (''Longitude'', Text ''-77.4''),
              (''LLM Score'', Text ''95''), (''Address'', Text ''A'')],
      map_of [(''Price'', Text ''0''), (''Acres'', Text ''5''),
              (''Latitude'', Text ''38.8''), (''Longitude'', Text ''-77.3'')]]"

text \<open>A row without usable numbers: a formatted price, no acreage, a note and an empty score.\<close>

definition defaults_row :: rawrow where
  "defaults_row =
     map_of [(''Price'', Text ''$300,000''), (''Drive Dist (mi)'', Text ''n/a''),
             (''LLM Score'', Text [])]"

text \<open>Rows with a negative acreage and a negative price.\<close>

definition negative_rows :: "rawrow list" where
  "negative_rows =
     [map_of [(''Price'', Text ''100''), (''Acres'', Text ''-5''),
              (''Latitude'', Text ''1''), (''Longitude'', Text ''1'')],
      map_of [(''Price'', Text ''-5''), (''Acres'', Text ''2''),
              (''Latitude'', Text ''1''), (''Longitude'', Text ''1'')]]"

text \<open>
  The second scenario: two valid rows with areas 0 and 10 and prices 100000 and 200000.
\<close>

definition scenario2_rows :: "rawrow list" where
  "scenario2_rows =
     [map_of [(''Price'', Text ''100000''), (''Acres'', Text ''0''),
              (''Latitude'', Text ''38.9''), (''Longitude'', Text ''-77.4'')],
      map_of [(''Price'', Text ''200000''), (''Acres'', Text ''10''),
              (''Latitude'', Text ''38.8''), (''Longitude'', Text ''-77.3'')]]"

text \<open>The third scenario: three valid rows with scores 70, 95 and 95.\<close>

definition scenario3_rows :: "rawrow list" where
  "scenario3_rows =
     [map_of [(''Price'', Text ''100000''), (''LLM Score'', Text ''70''),
              (''Latitude'', Text ''38.9''), (''Longitude'', Text ''-77.4'')],
      map_of [(''Price'', Text ''200000''), (''LLM Score'', Text ''95''),
              (''Latitude'', Text ''38.8''), (''Longitude'', Text ''-77.3'')],
      map_of [(''Price'', Text ''300000''), (''LLM Score'', Text ''95''),
              (''Latitude'', Text ''38.7''), (''Longitude'', Text ''-77.2'')]]"

section \<open>Properties of URL extraction\<close>

subsection \<open>The matcher against the shape of the formula\<close>

lemma match_literal_append:
  "map canonicalize kw = map canonicalize p \<Longrightarrow> match_literal p (kw @ t) = Some t"
proof (induction p arbitrary: kw)
  case Nil
  then show ?case by simp
next
  case (Cons a p)
  then obtain k ks where "kw = k # ks" by (cases kw) auto
  with Cons show ?case by simp
qed

lemma match_literal_Some:
  "match_literal p s = Some t \<Longrightarrow> \<exists>kw. s = kw @ t \<and> map canonicalize kw = map canonicalize p"
proof (induction p s rule: match_literal.induct)
  case (1 s)
  then show ?case by simp
next
  case (2 p ps)
  then show ?case by simp
next
  case (3 p ps c cs)
  then have eq: "canonicalize c = canonicalize p" and m: "match_literal ps cs = Some t"
    by (auto split: if_splits)
  from 3(1)[OF eq m] obtain kw where "cs = kw @ t" "map canonicalize kw = map canonicalize ps"
    by blast
  with eq have "c # cs = (c # kw) @ t \<and> map canonicalize (c # kw) = map canonicalize (p # ps)"
    by simp
  then show ?case by blast
qed

lemma not_space_quote: "\<not> is_space (CHR 0x22)"
  by (simp add: is_space_def)

lemma dropWhile_spaces:
  "\<forall>c \<in> set ws. is_space c \<Longrightarrow> dropWhile is_space (ws @ CHR 0x22 # t) = CHR 0x22 # t"
  by (simp add: dropWhile_append3 not_space_quote)

lemma hyperlink_at_shape:
  assumes "formula_shape s u"
  shows "hyperlink_at s = Some u"
proof -
  from assms obtain kw ws rest where
    s: "s = kw @ ws @ CHR 0x22 # u @ CHR 0x22 # rest"
    and kw: "map canonicalize kw = map canonicalize hyperlink_token"
    and ws: "\<forall>c \<in> set ws. is_space c" and u: "u \<noteq> []" "CHR 0x22 \<notin> set u"
    unfolding formula_shape_def by blast
  have lit: "match_literal hyperlink_token s = Some (ws @ CHR 0x22 # u @ CHR 0x22 # rest)"
    unfolding s by (rule match_literal_append[OF kw])
  have tw: "takeWhile (\<lambda>c. c \<noteq> CHR 0x22) (u @ CHR 0x22 # rest) = u"
    using u(2) by (auto simp: takeWhile_tail)
  have dw: "dropWhile (\<lambda>c. c \<noteq> CHR 0x22) (u @ CHR 0x22 # rest) = CHR 0x22 # rest"
    using u(2) by (subst dropWhile_append3) auto
  show ?thesis
    unfolding hyperlink_at_def lit
    using u(1) by (simp add: dropWhile_spaces[OF ws] tw dw)
qed

lemma hyperlink_at_Some:
  assumes "hyperlink_at s = Some u"
  shows "formula_shape s u"
proof -
  from assms obtain t where lit: "match_literal hyperlink_token s = Some t"
    unfolding hyperlink_at_def by (auto split: option.splits)
  then obtain kw where s: "s = kw @ t"
    and kw: "map canonicalize kw = map canonicalize hyperlink_token"
    using match_literal_Some by blast
  define ws where "ws = takeWhile is_space t"
  from assms lit obtain b where dr: "dropWhile is_space t = CHR 0x22 # b"
    and body: "takeWhile (\<lambda>c. c \<noteq> CHR 0x22) b = u" "u \<noteq> []"
    and rest: "dropWhile (\<lambda>c. c \<noteq> CHR 0x22) b \<noteq> []"
    unfolding hyperlink_at_def
    by (auto split: option.splits list.splits if_splits simp: Let_def)
  have t: "t = ws @ CHR 0x22 # b"
    unfolding ws_def using dr takeWhile_dropWhile_id[of is_space t] by simp
  have wsp: "\<forall>c \<in> set ws. is_space c"
    unfolding ws_def by (auto dest: set_takeWhileD)
  from rest obtain rest' where dw: "dropWhile (\<lambda>c. c \<noteq> CHR 0x22) b = CHR 0x22 # rest'"
    using hd_dropWhile[of "\<lambda>c. c \<noteq> CHR 0x22" b]
    by (cases "dropWhile (\<lambda>c. c \<noteq> CHR 0x22) b") auto
  have b: "b = u @ CHR 0x22 # rest'"
    using takeWhile_dropWhile_id[of "\<lambda>c. c \<noteq> CHR 0x22" b] body(1) dw by simp
  have nq: "CHR 0x22 \<notin> set u"
    using body(1) by (auto dest: set_takeWhileD)
  have "s = kw @ ws @ CHR 0x22 # u @ CHR 0x22 # rest'"
    unfolding s t b ..
  with kw wsp body(2) nq show ?thesis
    unfolding formula_shape_def by blast
qed

subsection \<open>The leftmost match\<close>

lemma hyperlink_match_leftmost:
  "hyperlink_at s = Some u \<Longrightarrow> \<forall>i<length pre. hyperlink_at (drop i (pre @ s)) = None
     \<Longrightarrow> hyperlink_match (pre @ s) = Some u"
proof (induction pre)
  case Nil
  then show ?case by (cases s) auto
next
  case (Cons a pre)
  from Cons.prems(2) have h0: "hyperlink_at ((a # pre) @ s) = None" by force
  have "\<forall>i<length pre. hyperlink_at (drop i (pre @ s)) = None"
  proof (intro allI impI)
    fix i assume "i < length pre"
    then have "Suc i < length (a # pre)" by simp
    with Cons.prems(2) have "hyperlink_at (drop (Suc i) ((a # pre) @ s)) = None" by blast
    then show "hyperlink_at (drop i (pre @ s)) = None" by simp
  qed
  with Cons.IH Cons.prems(1) have "hyperlink_match (pre @ s) = Some u" by blast
  with h0 show ?case by simp
qed

lemma hyperlink_match_None:
  "hyperlink_match s = None \<Longrightarrow> hyperlink_at (drop i s) = None"
proof (induction s arbitrary: i)
  case Nil
  then show ?case by simp
next
  case (Cons a s)
  then show ?case by (cases i) (auto split: option.splits)
qed

lemma hyperlink_match_Some:
  "hyperlink_match s = Some u \<Longrightarrow> \<exists>i \<le> length s. hyperlink_at (drop i s) = Some u"
proof (induction s)
  case Nil
  then show ?case by simp
next
  case (Cons a s)
  show ?case
  proof (cases "hyperlink_at (a # s)")
    case None
    with Cons obtain i where "i \<le> length s" "hyperlink_at (drop i s) = Some u" by auto
    then have "Suc i \<le> length (a # s) \<and> hyperlink_at (drop (Suc i) (a # s)) = Some u" by simp
    then show ?thesis by blast
  next
    case (Some v)
    with Cons.prems have "hyperlink_at (drop 0 (a # s)) = Some u" by simp
    then show ?thesis by blast
  qed
qed

lemma hyperlink_match_first:
  "hyperlink_match s = Some u \<Longrightarrow>
     \<exists>i \<le> length s. hyperlink_at (drop i s) = Some u \<and> (\<forall>j<i. hyperlink_at (drop j s) = None)"
proof (induction s)
  case Nil
  then show ?case by simp
next
  case (Cons a s)
  show ?case
  proof (cases "hyperlink_at (a # s)")
    case None
    with Cons obtain i where i: "i \<le> length s" "hyperlink_at (drop i s) = Some u"
      "\<forall>j<i. hyperlink_at (drop j s) = None" by auto
    have "hyperlink_at (drop j (a # s)) = None" if "j < Suc i" for j
      using that None i(3) by (cases j) auto
    with i(1,2) have "Suc i \<le> length (a # s) \<and> hyperlink_at (drop (Suc i) (a # s)) = Some u
        \<and> (\<forall>j<Suc i. hyperlink_at (drop j (a # s)) = None)"
      by simp
    then show ?thesis by blast
  next
    case (Some v)
    with Cons.prems have "0 \<le> length (a # s) \<and> hyperlink_at (drop 0 (a # s)) = Some u
        \<and> (\<forall>j<0. hyperlink_at (drop j (a # s)) = None)"
      by simp
    then show ?thesis by blast
  qed
qed

lemma formula_shape_shorter: "formula_shape t u \<Longrightarrow> length u < length t"
  unfolding formula_shape_def by auto

text \<open>A string holds a formula somewhere exactly when the search finds a match.\<close>

lemma has_hyperlink_formula_code [code]:
  "has_hyperlink_formula s = (hyperlink_match s \<noteq> None)"
proof
  assume "has_hyperlink_formula s"
  then obtain pre t u where s: "s = pre @ t" and "formula_shape t u"
    unfolding has_hyperlink_formula_def by blast
  then have "hyperlink_at (drop (length pre) s) = Some u"
    by (simp add: hyperlink_at_shape)
  then show "hyperlink_match s \<noteq> None"
    using hyperlink_match_None[of s "length pre"] by auto
next
  assume "hyperlink_match s \<noteq> None"
  then obtain u where "hyperlink_match s = Some u" by auto
  then obtain i where "hyperlink_at (drop i s) = Some u"
    using hyperlink_match_Some by blast
  then have "formula_shape (drop i s) u" by (rule hyperlink_at_Some)
  moreover have "s = take i s @ drop i s" by simp
  ultimately show "has_hyperlink_formula s"
    unfolding has_hyperlink_formula_def by blast
qed

subsection \<open>Claims on \<^verbatim>\<open>extractURL\<close>\<close>

text \<open>
  Claim C2, as amended. For a string cell that is a hyperlink formula, \<^verbatim>\<open>extractURL\<close>
  returns the first quoted string after the function name: the token \<^verbatim>\<open>=HYPERLINK(\<close> may be
  in any letter case, and white space is tolerated between the opening parenthesis and
  the opening quote. The quoted string is not empty.
\<close>

theorem extractURL_formula_cell:
  assumes "map canonicalize kw = map canonicalize hyperlink_token"
    and "\<forall>c \<in> set ws. is_space c" and "u \<noteq> []" and "CHR 0x22 \<notin> set u"
  shows "extractURL (Text (kw @ ws @ CHR 0x22 # u @ CHR 0x22 # rest)) = u"
proof -
  let ?s = "kw @ ws @ CHR 0x22 # u @ CHR 0x22 # rest"
  have "formula_shape ?s u"
    unfolding formula_shape_def using assms by blast
  then have at: "hyperlink_at ?s = Some u" by (rule hyperlink_at_shape)
  have "hyperlink_match ([] @ ?s) = Some u"
    by (rule hyperlink_match_leftmost[OF at]) simp
  then show ?thesis
    by (simp add: extractURL_def)
qed

theorem extractURL_formula_cell_witness:
  \<open>extractURL (Text ''=HYPERLINK("https://example.com/x","label")'') = ''https://example.com/x''
   \<and> extractURL (Text ''=hyperlink(  "https://example.com/x","label")'') = ''https://example.com/x''\<close>
proof -
  have a: "map canonicalize ''=HYPERLINK('' = map canonicalize hyperlink_token"
    by (simp add: hyperlink_token_def)
  have b: "map canonicalize ''=hyperlink('' = map canonicalize hyperlink_token"
    by code_simp
  have c: "\<forall>c \<in> set ''  ''. is_space c" "\<forall>c \<in> set []. is_space c"
    by (simp_all add: is_space_def)
  have d: "''https://example.com/x'' \<noteq> []" "CHR 0x22 \<notin> set ''https://example.com/x''"
    by simp_all
  show ?thesis
    using extractURL_formula_cell[OF a c(2) d, of \<open>'',"label")''\<close>]
          extractURL_formula_cell[OF b c(1) d, of \<open>'',"label")''\<close>]
    by simp
qed

text \<open>
  Claim C2 as written fails: with a space between the function name and the opening
  parenthesis the pattern does not match, and the cell yields the placeholder.
\<close>

theorem extractURL_space_before_paren_counterexample:
  \<open>extractURL (Text ''=HYPERLINK ("https://example.com/x","label")'') = ''#''
   \<and> ''#'' \<noteq> ''https://example.com/x''\<close>
  by code_simp

text \<open>
  Claim C9. A text cell that starts with neither \<^verbatim>\<open>http://\<close> nor \<^verbatim>\<open>https://\<close> and holds no
  hyperlink formula (empty and malformed content included) yields the placeholder \<^verbatim>\<open>#\<close>.
\<close>

theorem extractURL_placeholder:
  assumes "\<not> startsWith s ''http://''" and "\<not> startsWith s ''https://''"
    and "\<not> has_hyperlink_formula s"
  shows "extractURL (Text s) = ''#''"
proof -
  from assms(3) have "hyperlink_match s = None"
    by (simp add: has_hyperlink_formula_code)
  with assms(1,2) show ?thesis
    by (simp add: extractURL_def)
qed

theorem extractURL_placeholder_witness:
  \<open>\<not> startsWith ''View Listing'' ''http://'' \<and> \<not> startsWith ''View Listing'' ''https://''
   \<and> \<not> has_hyperlink_formula ''View Listing''
   \<and> extractURL (Text ''View Listing'') = ''#''
   \<and> \<not> has_hyperlink_formula ''=HYPERLINK("broken''
   \<and> extractURL (Text ''=HYPERLINK("broken'') = ''#''
   \<and> extractURL (Text []) = ''#''\<close>
proof -
  have a: "\<not> startsWith ''View Listing'' ''http://''" "\<not> startsWith ''View Listing'' ''https://''"
    "\<not> has_hyperlink_formula ''View Listing''"
    by code_simp+
  have b: \<open>\<not> startsWith ''=HYPERLINK("broken'' ''http://''\<close>
    \<open>\<not> startsWith ''=HYPERLINK("broken'' ''https://''\<close>
    \<open>\<not> has_hyperlink_formula ''=HYPERLINK("broken''\<close>
    by code_simp+
  have c: "\<not> startsWith [] ''http://''" "\<not> startsWith [] ''https://''"
    "\<not> has_hyperlink_formula []"
    by code_simp+
  show ?thesis
    using a b c extractURL_placeholder[OF a] extractURL_placeholder[OF b] extractURL_placeholder[OF c]
    by blast
qed

text \<open>
  Claim C10, as amended. The formula pattern is searched anywhere in the cell and comes
  before the plain-URL rule. When \<^verbatim>\<open>=HYPERLINK("u"\<close> stands at some position of the string,
  also of a string that begins with \<^verbatim>\<open>http://\<close> or \<^verbatim>\<open>https://\<close>, the result is the quoted
  string of the leftmost formula in the string and never the cell text; it is \<open>u\<close> when no
  formula starts further left.
\<close>

theorem extractURL_formula_anywhere:
  assumes "map canonicalize kw = map canonicalize hyperlink_token"
    and "\<forall>c \<in> set ws. is_space c" and "u \<noteq> []" and "CHR 0x22 \<notin> set u"
    and "s = pre @ kw @ ws @ CHR 0x22 # u @ CHR 0x22 # rest"
  shows "(\<exists>i \<le> length pre. formula_shape (drop i s) (extractURL (Text s))
            \<and> (\<forall>j<i. \<forall>v. \<not> formula_shape (drop j s) v))
       \<and> ((\<forall>j<length pre. \<forall>v. \<not> formula_shape (drop j s) v) \<longrightarrow> extractURL (Text s) = u)
       \<and> extractURL (Text s) \<noteq> s"
proof -
  have "formula_shape (kw @ ws @ CHR 0x22 # u @ CHR 0x22 # rest) u"
    unfolding formula_shape_def using assms(1-4) by blast
  then have here: "formula_shape (drop (length pre) s) u"
    unfolding assms(5) by simp
  then have at: "hyperlink_at (drop (length pre) s) = Some u"
    by (rule hyperlink_at_shape)
  then have "hyperlink_match s \<noteq> None"
    using hyperlink_match_None[of s "length pre"] by auto
  then obtain w where m: "hyperlink_match s = Some w" by auto
  have ne: "s \<noteq> []" unfolding assms(5) by simp
  have res: "extractURL (Text s) = w"
    using m ne by (simp add: extractURL_def)
  from hyperlink_match_first[OF m] obtain i where
    i: "hyperlink_at (drop i s) = Some w" "\<forall>j<i. hyperlink_at (drop j s) = None"
    by blast
  have ile: "i \<le> length pre"
  proof (rule ccontr)
    assume "\<not> i \<le> length pre"
    then have "hyperlink_at (drop (length pre) s) = None" using i(2) by simp
    with at show False by simp
  qed
  have shape: "formula_shape (drop i s) w"
    using i(1) by (rule hyperlink_at_Some)
  have none: "\<not> formula_shape (drop j s) v" if "j < i" for j v
  proof
    assume "formula_shape (drop j s) v"
    then have "hyperlink_at (drop j s) = Some v" by (rule hyperlink_at_shape)
    with i(2) that show False by simp
  qed
  have first: "\<exists>i \<le> length pre. formula_shape (drop i s) (extractURL (Text s))
            \<and> (\<forall>j<i. \<forall>v. \<not> formula_shape (drop j s) v)"
    unfolding res using ile shape none by blast
  have second: "extractURL (Text s) = u" if "\<forall>j<length pre. \<forall>v. \<not> formula_shape (drop j s) v"
  proof -
    from that shape have "\<not> i < length pre" by blast
    with ile have "i = length pre" by simp
    with i(1) at res show ?thesis by simp
  qed
  have "length w < length (drop i s)"
    using shape by (rule formula_shape_shorter)
  then have third: "extractURL (Text s) \<noteq> s"
    unfolding res by auto
  from first second third show ?thesis by blast
qed

theorem extractURL_formula_anywhere_witness:
  \<open>extractURL (Text ''https://a.b/?u==HYPERLINK("https://example.com/x") tail'') = ''https://example.com/x''
   \<and> startsWith ''https://a.b/?u==HYPERLINK("https://example.com/x") tail'' ''https://''\<close>
proof -
  have a: "map canonicalize ''=HYPERLINK('' = map canonicalize hyperlink_token"
    by (simp add: hyperlink_token_def)
  have c: "\<forall>c \<in> set []. is_space c"
    by simp
  have d: "''https://example.com/x'' \<noteq> []" "CHR 0x22 \<notin> set ''https://example.com/x''"
    by simp_all
  have e: \<open>''https://a.b/?u==HYPERLINK("https://example.com/x") tail''
      = ''https://a.b/?u='' @ ''=HYPERLINK('' @ [] @ CHR 0x22 # ''https://example.com/x'' @ CHR 0x22 # '') tail''\<close>
    by simp
  have f: \<open>\<forall>j<length ''https://a.b/?u=''.
      hyperlink_at (drop j ''https://a.b/?u==HYPERLINK("https://example.com/x") tail'') = None\<close>
    by code_simp
  have f': \<open>\<forall>j<length ''https://a.b/?u=''. \<forall>v.
      \<not> formula_shape (drop j ''https://a.b/?u==HYPERLINK("https://example.com/x") tail'') v\<close>
  proof (intro allI impI notI)
    fix j v
    assume "j < length ''https://a.b/?u=''"
      and \<open>formula_shape (drop j ''https://a.b/?u==HYPERLINK("https://example.com/x") tail'') v\<close>
    with f hyperlink_at_shape show False by fastforce
  qed
  have g: \<open>startsWith ''https://a.b/?u==HYPERLINK("https://example.com/x") tail'' ''https://''\<close>
    by code_simp
  show ?thesis
    using extractURL_formula_anywhere[OF a c d e] f' g by blast
qed

text \<open>
  Claim C10 as written fails when two formulas stand in one cell: the string holds
  \<^verbatim>\<open>=HYPERLINK("b"\<close>, and the result is the quoted string of the formula further left.
\<close>

theorem extractURL_two_formulas_counterexample:
  \<open>''=HYPERLINK("a")=HYPERLINK("b")'' = ''=HYPERLINK("a")'' @ ''=HYPERLINK("b"'' @ '')''
   \<and> extractURL (Text ''=HYPERLINK("a")=HYPERLINK("b")'') = ''a''
   \<and> ''a'' \<noteq> ''b''\<close>
  by code_simp

section \<open>Properties of the normaliser and the retention filter\<close>

lemma pid_normalize_row [simp]: "pid (normalize_row nts row i) = i"
  by (simp add: normalize_row_def Let_def)

lemma price_normalize_row:
  "price (normalize_row nts row i) = or_zero (parseFloat nts (get_cell row ''Price''))"
  by (simp add: normalize_row_def Let_def)

lemma acres_normalize_row:
  "acres (normalize_row nts row i) = or_zero (parseFloat nts (get_cell row ''Acres''))"
  by (simp add: normalize_row_def Let_def)

lemma lat_normalize_row:
  "lat (normalize_row nts row i) = parseFloat nts (get_cell row ''Latitude'')"
  by (simp add: normalize_row_def Let_def)

lemma lng_normalize_row:
  "lng (normalize_row nts row i) = parseFloat nts (get_cell row ''Longitude'')"
  by (simp add: normalize_row_def Let_def)

lemma driveTime_normalize_row:
  "driveTime (normalize_row nts row i) = or_zero (parseInt nts (get_cell row ''Drive Dist (mi)''))"
  by (simp add: normalize_row_def Let_def)

lemma llmScore_normalize_row:
  "llmScore (normalize_row nts row i) = or_zero (parseInt nts (get_cell row ''LLM Score''))"
  by (simp add: normalize_row_def Let_def)

lemma jgt_or_zero: "jgt (or_zero v) (Fin 0) = jgt v (Fin 0)"
  by (cases v) (simp_all add: or_zero_def)

lemma or_zero_not_NaN: "or_zero v \<noteq> NaN"
  by (simp add: or_zero_def)

lemma valid_normalize_row:
  "valid (normalize_row nts row i) =
     (jgt (parseFloat nts (get_cell row ''Price'')) (Fin 0)
      \<and> parseFloat nts (get_cell row ''Latitude'') \<noteq> NaN
      \<and> parseFloat nts (get_cell row ''Longitude'') \<noteq> NaN)"
  by (simp add: valid_def isNaN_def price_normalize_row lat_normalize_row lng_normalize_row
      jgt_or_zero)

lemma filter_eq_upt: "i < n \<Longrightarrow> filter (\<lambda>j. j = i) [0..<n] = [i]"
proof (induction n)
  case 0
  then show ?case by simp
next
  case (Suc n)
  show ?case
  proof (cases "i = n")
    case True
    then have "filter (\<lambda>j. j = i) [0..<n] = []" by (auto simp: filter_empty_conv)
    with True show ?thesis by simp
  next
    case False
    with Suc have "filter (\<lambda>j. j = i) [0..<n] = [i]" by simp
    with False show ?thesis by simp
  qed
qed

lemma filter_pid_load:
  assumes "i < length rawJson"
  shows "filter (\<lambda>p. pid p = i) (loadExcelData nts rawJson) =
           filter valid [normalize_row nts (rawJson ! i) i]"
proof -
  let ?f = "\<lambda>index. normalize_row nts (rawJson ! index) index"
  have "filter (\<lambda>p. pid p = i) (loadExcelData nts rawJson)
          = filter valid (filter (\<lambda>p. pid p = i) (map ?f [0..<length rawJson]))"
    unfolding loadExcelData_def by (simp add: conj_commute)
  also have "filter (\<lambda>p. pid p = i) (map ?f [0..<length rawJson])
          = map ?f (filter (\<lambda>j. j = i) [0..<length rawJson])"
    by (simp add: filter_map comp_def)
  also have "\<dots> = [?f i]"
    by (simp add: filter_eq_upt[OF assms])
  finally show ?thesis .
qed

text \<open>
  Claim C1. The record of a raw row is kept in the loaded collection if and only if its
  parsed price is greater than 0 and its parsed latitude and longitude are not \<open>NaN\<close>;
  otherwise it is dropped. The condition reads the \<^verbatim>\<open>Price\<close>, \<^verbatim>\<open>Latitude\<close> and \<^verbatim>\<open>Longitude\<close>
  cells only, so no other cell, absent or defaulted, excludes a row.
\<close>

theorem retention_iff:
  assumes "i < length rawJson" and "p = normalize_row nts (rawJson ! i) i"
  shows "filter (\<lambda>q. pid q = i) (loadExcelData nts rawJson) =
           (if jgt (price p) (Fin 0) \<and> \<not> isNaN (lat p) \<and> \<not> isNaN (lng p) then [p] else [])
         \<and> (p \<in> set (loadExcelData nts rawJson)
              \<longleftrightarrow> jgt (price p) (Fin 0) \<and> \<not> isNaN (lat p) \<and> \<not> isNaN (lng p))
         \<and> (jgt (price p) (Fin 0) \<and> \<not> isNaN (lat p) \<and> \<not> isNaN (lng p)
              \<longleftrightarrow> jgt (parseFloat nts (get_cell (rawJson ! i) ''Price'')) (Fin 0)
                  \<and> parseFloat nts (get_cell (rawJson ! i) ''Latitude'') \<noteq> NaN
                  \<and> parseFloat nts (get_cell (rawJson ! i) ''Longitude'') \<noteq> NaN)
         \<and> (\<forall>row' j. get_cell row' ''Price'' = get_cell (rawJson ! i) ''Price''
                \<and> get_cell row' ''Latitude'' = get_cell (rawJson ! i) ''Latitude''
                \<and> get_cell row' ''Longitude'' = get_cell (rawJson ! i) ''Longitude''
              \<longrightarrow> valid (normalize_row nts row' j) = valid p)"
proof (intro conjI)
  show "\<forall>row' j. get_cell row' ''Price'' = get_cell (rawJson ! i) ''Price''
                \<and> get_cell row' ''Latitude'' = get_cell (rawJson ! i) ''Latitude''
                \<and> get_cell row' ''Longitude'' = get_cell (rawJson ! i) ''Longitude''
              \<longrightarrow> valid (normalize_row nts row' j) = valid p"
    unfolding assms(2) by (simp add: valid_normalize_row)
  show "filter (\<lambda>q. pid q = i) (loadExcelData nts rawJson) =
           (if jgt (price p) (Fin 0) \<and> \<not> isNaN (lat p) \<and> \<not> isNaN (lng p) then [p] else [])"
    unfolding filter_pid_load[OF assms(1)] assms(2)[symmetric] by (simp add: valid_def)
  have "p \<in> set (map (\<lambda>index. normalize_row nts (rawJson ! index) index) [0..<length rawJson])"
    unfolding assms(2) using assms(1) by auto
  then show "p \<in> set (loadExcelData nts rawJson)
              \<longleftrightarrow> jgt (price p) (Fin 0) \<and> \<not> isNaN (lat p) \<and> \<not> isNaN (lng p)"
    unfolding loadExcelData_def by (simp add: valid_def)
  show "jgt (price p) (Fin 0) \<and> \<not> isNaN (lat p) \<and> \<not> isNaN (lng p)
              \<longleftrightarrow> jgt (parseFloat nts (get_cell (rawJson ! i) ''Price'')) (Fin 0)
                  \<and> parseFloat nts (get_cell (rawJson ! i) ''Latitude'') \<noteq> NaN
                  \<and> parseFloat nts (get_cell (rawJson ! i) ''Longitude'') \<noteq> NaN"
    using valid_normalize_row[of nts "rawJson ! i" i] unfolding assms(2) valid_def .
qed



theorem retention_iff_witness:
  "filter (\<lambda>q. pid q = 0) (loadExcelData (\<lambda>_. []) scenario1_rows)
     = [normalize_row (\<lambda>_. []) (scenario1_rows ! 0) 0]
   \<and> filter (\<lambda>q. pid q = 1) (loadExcelData (\<lambda>_. []) scenario1_rows) = []
   \<and> price (normalize_row (\<lambda>_. []) (scenario1_rows ! 1) 1) = Fin 0"
proof -
  have len: "0 < length scenario1_rows" "1 < length scenario1_rows"
    by (simp_all add: scenario1_rows_def)
  have p0: "jgt (price (normalize_row (\<lambda>_. []) (scenario1_rows ! 0) 0)) (Fin 0)"
    "\<not> isNaN (lat (normalize_row (\<lambda>_. []) (scenario1_rows ! 0) 0))"
    "\<not> isNaN (lng (normalize_row (\<lambda>_. []) (scenario1_rows ! 0) 0))"
    by code_simp+
  have p1: "price (normalize_row (\<lambda>_. []) (scenario1_rows ! 1) 1) = Fin 0"
    by code_simp
  show ?thesis
    using retention_iff[OF len(1) refl, of "\<lambda>_. []"] retention_iff[OF len(2) refl, of "\<lambda>_. []"]
      p0 p1
    by simp
qed

subsection \<open>Numeric defaults\<close>

lemma takeWhile_digit_Nil: "(takeWhile is_digit t = []) = (t = [] \<or> \<not> is_digit (hd t))"
  by (cases t) auto

text \<open>The predicate is exactly the failure of \<^verbatim>\<open>parseFloat\<close> on the text.\<close>

lemma unsigned_decimal_NaN_iff: "(unsigned_decimal t = NaN) = no_literal t"
proof (cases t)
  case Nil
  then show ?thesis
    by (simp add: unsigned_decimal_def no_literal_def startsWith_def)
next
  case (Cons c u)
  show ?thesis
  proof (cases "is_digit c")
    case True
    with Cons show ?thesis
      by (simp add: unsigned_decimal_def no_literal_def Let_def)
  next
    case False
    with Cons have r1: "takeWhile is_digit t = []" "dropWhile is_digit t = c # u"
      by simp_all
    show ?thesis
      unfolding unsigned_decimal_def Let_def r1 no_literal_def
      using False Cons by (auto simp: takeWhile_digit_Nil)
  qed
qed

lemma jneg_NaN: "(jneg v = NaN) = (v = NaN)"
  by (cases v) simp_all

lemma parseFloat_str_NaN_iff: "(parseFloat_str s = NaN) = lacks_number s"
proof (cases "trim_start s")
  case Nil
  then show ?thesis
    by (simp add: parseFloat_str_def lacks_number_def no_literal_def startsWith_def)
next
  case (Cons c t)
  show ?thesis
  proof (cases "c = CHR ''-'' \<or> c = CHR ''+''")
    case True
    with Cons show ?thesis
      by (auto simp: parseFloat_str_def lacks_number_def jneg_NaN unsigned_decimal_NaN_iff)
  next
    case False
    with Cons show ?thesis
      by (auto simp: parseFloat_str_def lacks_number_def unsigned_decimal_NaN_iff)
  qed
qed

lemma lacks_number_parseInt: "lacks_number s \<Longrightarrow> parseInt_str s = NaN"
proof -
  assume a: "lacks_number s"
  define S where "S = trim_start s"
  define S' where "S' = (if S \<noteq> [] \<and> (hd S = CHR ''-'' \<or> hd S = CHR ''+'') then tl S else S)"
  from a have "no_literal S'"
    unfolding lacks_number_def S'_def S_def Let_def .
  then have "S' = [] \<or> \<not> is_digit (hd S')"
    by (cases S') (auto simp: no_literal_def)
  then have "takeWhile is_digit S' = []"
    by (simp add: takeWhile_digit_Nil)
  then show ?thesis
    unfolding parseInt_str_def S'_def S_def Let_def by simp
qed

lemma lacks_number_undefined: "lacks_number ''undefined''"
  by code_simp

lemma lacks_number_true: "lacks_number ''true''"
  by code_simp

lemma lacks_number_false: "lacks_number ''false''"
  by code_simp

lemma lacks_number_empty: "lacks_number []"
  by code_simp

lemma non_numeric_parseFloat: "non_numeric v \<Longrightarrow> parseFloat nts v = NaN"
  by (cases v) (simp_all add: parseFloat_def parseFloat_str_NaN_iff lacks_number_undefined
      lacks_number_true lacks_number_false)

lemma non_numeric_parseInt: "non_numeric v \<Longrightarrow> parseInt nts v = NaN"
  by (cases v) (simp_all add: parseInt_def lacks_number_parseInt lacks_number_undefined
      lacks_number_true lacks_number_false)

lemma or_zero_NaN: "or_zero NaN = Fin 0"
  by (simp add: or_zero_def)

text \<open>
  Claim C7, as amended. Numeric parsing never fails: a \<^verbatim>\<open>Price\<close>, \<^verbatim>\<open>Acres\<close>,
  \<^verbatim>\<open>Drive Dist (mi)\<close> or \<^verbatim>\<open>LLM Score\<close> cell that is absent, empty or holds no number yields
  the default 0, and the four fields of every record are numbers, never \<open>NaN\<close>. The price
  of a retained record is greater than 0. (A negative cell value is kept as it is.)
\<close>

theorem numeric_defaults:
  assumes "p = normalize_row nts row i"
  shows "(non_numeric (get_cell row ''Price'') \<longrightarrow> price p = Fin 0)
       \<and> (non_numeric (get_cell row ''Acres'') \<longrightarrow> acres p = Fin 0)
       \<and> (non_numeric (get_cell row ''Drive Dist (mi)'') \<longrightarrow> driveTime p = Fin 0)
       \<and> (non_numeric (get_cell row ''LLM Score'') \<longrightarrow> llmScore p = Fin 0)
       \<and> price p \<noteq> NaN \<and> acres p \<noteq> NaN \<and> driveTime p \<noteq> NaN \<and> llmScore p \<noteq> NaN
       \<and> (valid p \<longrightarrow> jgt (price p) (Fin 0))"
  unfolding assms
  by (simp add: price_normalize_row acres_normalize_row driveTime_normalize_row
      llmScore_normalize_row non_numeric_parseFloat non_numeric_parseInt or_zero_NaN
      or_zero_not_NaN valid_def)

theorem numeric_defaults_witness:
  "non_numeric (get_cell defaults_row ''Price'') \<and> non_numeric (get_cell defaults_row ''Acres'')
   \<and> non_numeric (get_cell defaults_row ''Drive Dist (mi)'')
   \<and> non_numeric (get_cell defaults_row ''LLM Score'')
   \<and> price (normalize_row (\<lambda>_. []) defaults_row 0) = Fin 0
   \<and> acres (normalize_row (\<lambda>_. []) defaults_row 0) = Fin 0
   \<and> driveTime (normalize_row (\<lambda>_. []) defaults_row 0) = Fin 0
   \<and> llmScore (normalize_row (\<lambda>_. []) defaults_row 0) = Fin 0
   \<and> valid (normalize_row (\<lambda>_. []) (scenario1_rows ! 0) 0)
   \<and> jgt (price (normalize_row (\<lambda>_. []) (scenario1_rows ! 0) 0)) (Fin 0)"
proof -
  have a: "non_numeric (get_cell defaults_row ''Price'')" "non_numeric (get_cell defaults_row ''Acres'')"
    "non_numeric (get_cell defaults_row ''Drive Dist (mi)'')"
    "non_numeric (get_cell defaults_row ''LLM Score'')"
    by code_simp+
  have b: "valid (normalize_row (\<lambda>_. []) (scenario1_rows ! 0) 0)"
    by code_simp
  show ?thesis
    using numeric_defaults[OF refl, where nts = "\<lambda>_. []" and row = defaults_row and i = 0]
      numeric_defaults[OF refl, where nts = "\<lambda>_. []" and row = "scenario1_rows ! 0" and i = 0] a b
    by blast
qed

text \<open>
  Claim C7 as written fails: a row whose \<^verbatim>\<open>Acres\<close> cell reads \<^verbatim>\<open>-5\<close> is retained with the
  negative area, and a \<^verbatim>\<open>Price\<close> cell \<^verbatim>\<open>-5\<close> gives a record with a negative price.
\<close>

theorem negative_acres_counterexample:
  "map acres (loadExcelData (\<lambda>_. []) negative_rows) = [Fin (- 5)]
   \<and> jgt (Fin 0) (Fin (- 5))
   \<and> price (normalize_row (\<lambda>_. []) (negative_rows ! 1) 1) = Fin (- 5)"
  by code_simp

section \<open>Properties of the aggregation\<close>

subsection \<open>The averages\<close>

lemma foldl_jadd:
  "foldl (\<lambda>s p. jadd s (f p)) a xs = a + sum_list (map f xs)"
proof (induction xs arbitrary: a)
  case Nil
  then show ?case by simp
next
  case (Cons x xs)
  have "foldl (\<lambda>s p. jadd s (f p)) a (x # xs) = foldl (\<lambda>s p. jadd s (f p)) (a + f x) xs"
    by (simp add: plus_jsnum_def)
  also have "\<dots> = (a + f x) + sum_list (map f xs)"
    by (rule Cons.IH)
  finally show ?case by (simp add: add.assoc)
qed

lemma reduce_is_sum:
  "foldl (\<lambda>s p. jadd s (f p)) (Fin 0) xs = (\<Sum>p \<in># mset xs. f p)"
proof -
  have "foldl (\<lambda>s p. jadd s (f p)) (Fin 0) xs = 0 + sum_list (map f xs)"
    unfolding zero_jsnum_def by (rule foldl_jadd)
  also have "\<dots> = sum_mset (mset (map f xs))"
    using sum_mset_sum_list[of "map f xs"] by simp
  finally show ?thesis by simp
qed

lemma length_insert_by: "length (insert_by cmp a bs) = Suc (length bs)"
  by (induction bs) auto

lemma length_js_sort: "length (js_sort cmp xs) = length xs"
  unfolding js_sort_def by (induction xs) (auto simp: length_insert_by)

lemma renderAnalysis_nonempty:
  assumes "currentData \<noteq> []"
  shows "\<exists>first rest. js_sort (\<lambda>a b. jsub (llmScore b) (llmScore a)) currentData = first # rest
    \<and> renderAnalysis sidebar currentData =
       Inr (Some \<lparr> avgPrice = jdiv (\<Sum>p \<in># mset currentData. price p)
                                   (Fin (rat_of_nat (length currentData))),
                   avgPricePerAcre = jdiv (\<Sum>p \<in># mset currentData. per_acre p)
                                   (Fin (rat_of_nat (length currentData))),
                   ranked = js_sort (\<lambda>a b. jsub (llmScore b) (llmScore a)) currentData,
                   topPick = first, listings = length currentData,
                   picks = take 3 (js_sort (\<lambda>a b. jsub (llmScore b) (llmScore a)) currentData) \<rparr>)"
proof -
  let ?s = "js_sort (\<lambda>a b. jsub (llmScore b) (llmScore a)) currentData"
  from assms have "length ?s \<noteq> 0" by (simp add: length_js_sort)
  then obtain first rest where s: "?s = first # rest" by (cases ?s) auto
  have pa: "(\<lambda>p. if jgt (acres p) (Fin 0) then jdiv (price p) (acres p) else Fin 0) = per_acre"
    by (rule ext) (simp add: per_acre_def)
  show ?thesis
    using assms s unfolding renderAnalysis_def Let_def pa reduce_is_sum
    by simp
qed

lemma scenario2_eval:
  "(case renderAnalysis None (loadExcelData (\<lambda>_. []) scenario2_rows) of
      Inr (Some a) \<Rightarrow> avgPricePerAcre a = Fin 10000 \<and> avgPrice a = Fin 150000
          \<and> map acres (loadExcelData (\<lambda>_. []) scenario2_rows) = [Fin 0, Fin 10]
    | _ \<Rightarrow> False)"
  by code_simp

lemma scenario3_eval:
  "(case renderAnalysis None (loadExcelData (\<lambda>_. []) scenario3_rows) of
      Inr (Some a) \<Rightarrow> map pid (ranked a) = [1, 2, 0] \<and> map pid (picks a) = [1, 2, 0]
         \<and> map llmScore (ranked a) = [Fin 95, Fin 95, Fin 70]
    | _ \<Rightarrow> False)"
  by code_simp

text \<open>
  Claim C8. For a non-empty collection \<^verbatim>\<open>renderAnalysis\<close> succeeds and its \<open>avgPrice\<close> is the
  arithmetic mean of the prices: their sum over all records divided by the record count.
\<close>

theorem avgPrice_is_mean:
  assumes "currentData \<noteq> []"
  shows "\<exists>a. renderAnalysis sidebar currentData = Inr (Some a) \<and> avgPrice a = mean_price currentData"
  using renderAnalysis_nonempty[OF assms, where sidebar = sidebar] unfolding mean_price_def by auto

theorem avgPrice_is_mean_witness:
  "loadExcelData (\<lambda>_. []) scenario2_rows \<noteq> []
   \<and> mean_price (loadExcelData (\<lambda>_. []) scenario2_rows) = Fin 150000"
proof -
  have ne: "loadExcelData (\<lambda>_. []) scenario2_rows \<noteq> []"
    by code_simp
  from avgPrice_is_mean[OF ne, where sidebar = None] scenario2_eval
  have "mean_price (loadExcelData (\<lambda>_. []) scenario2_rows) = Fin 150000"
    by auto
  with ne show ?thesis by simp
qed

text \<open>
  Claim C3. For a non-empty collection \<open>avgPricePerAcre\<close> is the sum over all records of
  price / acres when acres > 0 and of 0 otherwise, divided by the count of all records: a
  record with zero area adds nothing to the sum and still counts in the divisor. The two
  retained records of the second scenario (areas 0 and 10, prices 100000 and 200000) give
  10000.
\<close>

theorem avgPricePerAcre_is_mean:
  assumes "currentData \<noteq> []"
  shows "(\<exists>a. renderAnalysis sidebar currentData = Inr (Some a)
            \<and> avgPricePerAcre a = mean_per_acre currentData)
       \<and> map acres (loadExcelData (\<lambda>_. []) scenario2_rows) = [Fin 0, Fin 10]
       \<and> map price (loadExcelData (\<lambda>_. []) scenario2_rows) = [Fin 100000, Fin 200000]
       \<and> (\<exists>a. renderAnalysis None (loadExcelData (\<lambda>_. []) scenario2_rows) = Inr (Some a)
            \<and> avgPricePerAcre a = Fin 10000)"
proof (intro conjI)
  show "\<exists>a. renderAnalysis sidebar currentData = Inr (Some a)
            \<and> avgPricePerAcre a = mean_per_acre currentData"
    using renderAnalysis_nonempty[OF assms, where sidebar = sidebar] unfolding mean_per_acre_def by auto
  show "map acres (loadExcelData (\<lambda>_. []) scenario2_rows) = [Fin 0, Fin 10]"
    by code_simp
  show "map price (loadExcelData (\<lambda>_. []) scenario2_rows) = [Fin 100000, Fin 200000]"
    by code_simp
  show "\<exists>a. renderAnalysis None (loadExcelData (\<lambda>_. []) scenario2_rows) = Inr (Some a)
            \<and> avgPricePerAcre a = Fin 10000"
    using scenario2_eval by (auto split: sum.splits option.splits)
qed

theorem avgPricePerAcre_is_mean_witness:
  "loadExcelData (\<lambda>_. []) scenario2_rows \<noteq> []
   \<and> mean_per_acre (loadExcelData (\<lambda>_. []) scenario2_rows) = Fin 10000"
proof -
  have ne: "loadExcelData (\<lambda>_. []) scenario2_rows \<noteq> []"
    by code_simp
  from avgPricePerAcre_is_mean[OF ne, where sidebar = None] scenario2_eval
  have "mean_per_acre (loadExcelData (\<lambda>_. []) scenario2_rows) = Fin 10000"
    by auto
  with ne show ?thesis by simp
qed

text \<open>
  The guard of \<^verbatim>\<open>renderAnalysis\<close>: on an empty collection the function returns before it
  computes or writes anything, so the sidebar is left as it was, and no collection at all
  makes the function throw.
\<close>

lemma renderAnalysis_guard:
  "renderAnalysis sidebar [] = Inr sidebar
   \<and> (\<forall>sb currentData e. renderAnalysis sb currentData \<noteq> Inl e)"
proof (intro conjI allI)
  show "renderAnalysis sidebar [] = Inr sidebar"
    by (simp add: renderAnalysis_def)
  fix sb currentData e
  show "renderAnalysis sb currentData \<noteq> Inl e"
  proof (cases "currentData = []")
    case True
    then show ?thesis by (simp add: renderAnalysis_def)
  next
    case False
    from renderAnalysis_nonempty[OF False, where sidebar = sb] show ?thesis by auto
  qed
qed

lemma scenario2_sidebar_eval:
  "(case renderAnalysis None (loadExcelData (\<lambda>_. []) scenario2_rows) of
      Inr (Some a) \<Rightarrow> avgPrice a = Fin 150000 \<and> avgPricePerAcre a = Fin 10000
          \<and> pid (topPick a) = 0 \<and> map pid (picks a) = [0, 1] \<and> listings a = 2
    | _ \<Rightarrow> False)"
  by code_simp

text \<open>
  Claim C5 asks that for an empty collection the sidebar holds no statistics, no
  narrative and no top picks. The guard returns before any write and clears nothing:
  when the rows of the second scenario are loaded first and a sheet without rows is
  loaded next, the sidebar still shows the averages 150000 and 10000, the top pick and
  the two picks of the earlier collection for the empty one. Only on a page that has
  shown no analysis yet is the sidebar empty afterwards.
\<close>

theorem stale_sidebar_after_empty_load:
  "loadExcelData (\<lambda>_. []) [] = []
   \<and> renderAnalysis None (loadExcelData (\<lambda>_. []) []) = Inr None
   \<and> (\<exists>a. renderAnalysis None (loadExcelData (\<lambda>_. []) scenario2_rows) = Inr (Some a)
         \<and> renderAnalysis (Some a) (loadExcelData (\<lambda>_. []) []) = Inr (Some a)
         \<and> avgPrice a = Fin 150000 \<and> avgPricePerAcre a = Fin 10000
         \<and> pid (topPick a) = 0 \<and> map pid (picks a) = [0, 1] \<and> listings a = 2)"
proof -
  have empty: "loadExcelData (\<lambda>_. []) [] = []"
    by (simp add: loadExcelData_def)
  from scenario2_sidebar_eval obtain a where
    a: "renderAnalysis None (loadExcelData (\<lambda>_. []) scenario2_rows) = Inr (Some a)"
      "avgPrice a = Fin 150000" "avgPricePerAcre a = Fin 10000"
      "pid (topPick a) = 0" "map pid (picks a) = [0, 1]" "listings a = 2"
    by (auto split: sum.splits option.splits)
  have stale: "renderAnalysis (Some a) (loadExcelData (\<lambda>_. []) []) = Inr (Some a)"
    unfolding empty using renderAnalysis_guard[of "Some a"] by simp
  have fresh: "renderAnalysis None (loadExcelData (\<lambda>_. []) []) = Inr None"
    unfolding empty using renderAnalysis_guard[of None] by simp
  show ?thesis
    by (intro conjI exI[of _ a]) (rule empty fresh stale a)+
qed

subsection \<open>The ranking\<close>

lemma cmp_sign: "jgt (jsub b a) (Fin 0) = jgt b a"
  by (cases a; cases b) (simp_all add: jsub_def)

lemma jgt_trans: "jgt a b \<Longrightarrow> jgt b c \<Longrightarrow> jgt a c"
  by (cases a; cases b; cases c) simp_all

lemma jgt_total: "a \<noteq> NaN \<Longrightarrow> b \<noteq> NaN \<Longrightarrow> jgt a b \<or> a = b \<or> jgt b a"
  by (cases a; cases b) auto

lemma mset_insert_by: "mset (insert_by cmp a bs) = add_mset a (mset bs)"
  by (induction bs) auto

lemma mset_js_sort: "mset (js_sort cmp xs) = mset xs"
  unfolding js_sort_def by (induction xs) (auto simp: mset_insert_by)

lemma set_insert_by: "set (insert_by cmp a bs) = insert a (set bs)"
  using mset_insert_by[of cmp a bs, THEN arg_cong[where f = set_mset]] by simp

lemma set_js_sort: "set (js_sort cmp xs) = set xs"
  using mset_js_sort[of cmp xs, THEN arg_cong[where f = set_mset]] by simp

lemma ranks_before_insert:
  assumes "sorted_wrt ranks_before bs"
    and "\<forall>b \<in> set bs. pid a < pid b"
    and "llmScore a \<noteq> NaN" and "\<forall>b \<in> set bs. llmScore b \<noteq> NaN"
  shows "sorted_wrt ranks_before (insert_by (\<lambda>a b. jsub (llmScore b) (llmScore a)) a bs)"
  using assms
proof (induction bs)
  case Nil
  then show ?case by simp
next
  case (Cons b bs)
  let ?cmp = "\<lambda>a b. jsub (llmScore b) (llmScore a)"
  show ?case
  proof (cases "jgt (llmScore b) (llmScore a)")
    case True
    have tail: "sorted_wrt ranks_before (insert_by ?cmp a bs)"
      using Cons by simp
    have "ranks_before b a"
      using True by (simp add: ranks_before_def)
    moreover have "\<forall>c \<in> set bs. ranks_before b c"
      using Cons.prems(1) by simp
    ultimately have "\<forall>c \<in> set (insert_by ?cmp a bs). ranks_before b c"
      by (simp add: set_insert_by)
    with tail True show ?thesis
      by (simp add: cmp_sign)
  next
    case False
    from Cons.prems(3,4) have "jgt (llmScore a) (llmScore b) \<or> llmScore a = llmScore b \<or> jgt (llmScore b) (llmScore a)"
      by (intro jgt_total) simp_all
    with False have ab: "jgt (llmScore a) (llmScore b) \<or> llmScore a = llmScore b"
      by blast
    have "ranks_before a c" if c: "c \<in> set (b # bs)" for c
    proof (cases "c = b")
      case True
      with ab Cons.prems(2) show ?thesis by (auto simp: ranks_before_def)
    next
      case False
      with c have cb: "c \<in> set bs" by simp
      with Cons.prems(1) have bc: "ranks_before b c" by simp
      from cb Cons.prems(2) have pc: "pid a < pid c" by simp
      from ab bc pc show ?thesis
        unfolding ranks_before_def by (auto intro: jgt_trans)
    qed
    with Cons.prems(1) False show ?thesis
      by (simp add: cmp_sign)
  qed
qed

lemma ranks_before_js_sort:
  assumes "sorted_wrt (\<lambda>a b. pid a < pid b) xs" and "\<forall>p \<in> set xs. llmScore p \<noteq> NaN"
  shows "sorted_wrt ranks_before (js_sort (\<lambda>a b. jsub (llmScore b) (llmScore a)) xs)"
  using assms
proof (induction xs)
  case Nil
  then show ?case by (simp add: js_sort_def)
next
  case (Cons p xs)
  let ?cmp = "\<lambda>a b. jsub (llmScore b) (llmScore a)"
  have step: "js_sort ?cmp (p # xs) = insert_by ?cmp p (js_sort ?cmp xs)"
    by (simp add: js_sort_def)
  have "sorted_wrt ranks_before (js_sort ?cmp xs)"
    using Cons by simp
  then show ?case
    unfolding step using Cons.prems
    by (intro ranks_before_insert) (simp_all add: set_js_sort)
qed

lemma load_pid_ascending: "sorted_wrt (\<lambda>a b. pid a < pid b) (loadExcelData nts rawJson)"
proof -
  have "sorted_wrt (\<lambda>i j. i < j) [0..<length rawJson]"
    by (simp add: sorted_wrt_iff_nth_less)
  then have "sorted_wrt (\<lambda>a b. pid a < pid b)
      (map (\<lambda>index. normalize_row nts (rawJson ! index) index) [0..<length rawJson])"
    by (simp add: sorted_wrt_map)
  then show ?thesis
    unfolding loadExcelData_def by (rule sorted_wrt_filter)
qed

lemma load_llmScore: "p \<in> set (loadExcelData nts rawJson) \<Longrightarrow> llmScore p \<noteq> NaN"
  unfolding loadExcelData_def by (auto simp: llmScore_normalize_row or_zero_not_NaN)

text \<open>
  Claim C4. For the collection loaded from any rows, the ranked order \<^verbatim>\<open>sorted\<close> is a
  permutation of the collection in which a record stands before another when its score
  is higher, or when the scores are equal and its id is smaller; the top picks are the
  first min(3, count) records of that order, and for a non-empty collection both are what
  \<^verbatim>\<open>renderAnalysis\<close> shows. The three records of the third scenario, with
  scores 70, 95, 95 and ids 0, 1, 2, rank as ids 1, 2, 0.
\<close>

theorem ranking_sorted:
  assumes "currentData = loadExcelData nts rawJson"
    and "sorted' = js_sort (\<lambda>a b. jsub (llmScore b) (llmScore a)) currentData"
  shows "mset sorted' = mset currentData
       \<and> sorted_wrt ranks_before sorted'
       \<and> length (take 3 sorted') = min 3 (length currentData)
       \<and> (currentData \<noteq> [] \<longrightarrow>
            (\<exists>a. renderAnalysis sidebar currentData = Inr (Some a)
               \<and> ranked a = sorted' \<and> picks a = take 3 sorted'))
       \<and> (\<exists>a. renderAnalysis None (loadExcelData (\<lambda>_. []) scenario3_rows) = Inr (Some a)
            \<and> map llmScore (ranked a) = [Fin 95, Fin 95, Fin 70]
            \<and> map pid (ranked a) = [1, 2, 0])"
proof (intro conjI impI)
  show "mset sorted' = mset currentData"
    unfolding assms(2) by (rule mset_js_sort)
  show "sorted_wrt ranks_before sorted'"
    unfolding assms
    by (intro ranks_before_js_sort load_pid_ascending ballI load_llmScore)
  show "length (take 3 sorted') = min 3 (length currentData)"
    unfolding assms(2) by (simp add: length_js_sort min.commute)
  show "\<exists>a. renderAnalysis sidebar currentData = Inr (Some a)
          \<and> ranked a = sorted' \<and> picks a = take 3 sorted'"
    if "currentData \<noteq> []"
    using renderAnalysis_nonempty[OF that, where sidebar = sidebar] unfolding assms(2) by auto
  show "\<exists>a. renderAnalysis None (loadExcelData (\<lambda>_. []) scenario3_rows) = Inr (Some a)
           \<and> map llmScore (ranked a) = [Fin 95, Fin 95, Fin 70]
           \<and> map pid (ranked a) = [1, 2, 0]"
    using scenario3_eval by (auto split: sum.splits option.splits)
qed

theorem ranking_sorted_witness:
  "loadExcelData (\<lambda>_. []) scenario3_rows \<noteq> []
   \<and> (\<exists>a. renderAnalysis None (loadExcelData (\<lambda>_. []) scenario3_rows) = Inr (Some a)
         \<and> mset (ranked a) = mset (loadExcelData (\<lambda>_. []) scenario3_rows)
         \<and> sorted_wrt ranks_before (ranked a)
         \<and> map pid (picks a) = [1, 2, 0])"
proof -
  have ne: "loadExcelData (\<lambda>_. []) scenario3_rows \<noteq> []"
    by code_simp
  from ranking_sorted[OF refl refl, where nts = "\<lambda>_. []" and rawJson = scenario3_rows
      and sidebar = None]
    scenario3_eval ne
  show ?thesis
    by (auto split: sum.splits option.splits)
qed

section \<open>Properties of the per-record price per acre\<close>

text \<open>
  Claim C6, as amended. For every record of the collection with acres > 0, the card and
  the chart both use round(price / acres). For the other records the card shows the
  dash, which is no formatted number, and the chart plots the value 0.
\<close>

theorem pricePerAcre_display:
  assumes "i < length currentData" and "p = currentData ! i"
  shows "(jgt (acres p) (Fin 0) \<longrightarrow>
            pricePerAcre (renderListings currentData ! i)
              = LocaleString (Math_round (jdiv (price p) (acres p)))
            \<and> point_y (renderChart currentData ! i) = Math_round (jdiv (price p) (acres p)))
       \<and> (\<not> jgt (acres p) (Fin 0) \<longrightarrow>
            pricePerAcre (renderListings currentData ! i) = EmDash
            \<and> point_y (renderChart currentData ! i) = Fin 0)
       \<and> (\<forall>v. EmDash \<noteq> LocaleString v)"
  using assms by (simp add: renderListings_def renderChart_def)

theorem pricePerAcre_display_witness:
  "jgt (acres (loadExcelData (\<lambda>_. []) scenario2_rows ! 1)) (Fin 0)
   \<and> pricePerAcre (renderListings (loadExcelData (\<lambda>_. []) scenario2_rows) ! 1)
       = LocaleString (Fin 20000)
   \<and> point_y (renderChart (loadExcelData (\<lambda>_. []) scenario2_rows) ! 1) = Fin 20000
   \<and> \<not> jgt (acres (loadExcelData (\<lambda>_. []) scenario2_rows ! 0)) (Fin 0)
   \<and> pricePerAcre (renderListings (loadExcelData (\<lambda>_. []) scenario2_rows) ! 0) = EmDash"
proof -
  have len: "0 < length (loadExcelData (\<lambda>_. []) scenario2_rows)"
    "1 < length (loadExcelData (\<lambda>_. []) scenario2_rows)"
    by code_simp+
  have a: "jgt (acres (loadExcelData (\<lambda>_. []) scenario2_rows ! 1)) (Fin 0)"
    "\<not> jgt (acres (loadExcelData (\<lambda>_. []) scenario2_rows ! 0)) (Fin 0)"
    by code_simp+
  have v: "Math_round (jdiv (price (loadExcelData (\<lambda>_. []) scenario2_rows ! 1))
                            (acres (loadExcelData (\<lambda>_. []) scenario2_rows ! 1))) = Fin 20000"
    by code_simp
  show ?thesis
    using pricePerAcre_display[OF len(1) refl] pricePerAcre_display[OF len(2) refl] a v
    by simp
qed

text \<open>
  Claim C6 as written fails in the chart: the retained record with zero area of the
  second scenario is plotted at the value 0, while its card shows the dash.
\<close>

theorem chart_zero_area_counterexample:
  "acres (loadExcelData (\<lambda>_. []) scenario2_rows ! 0) = Fin 0
   \<and> point_y (renderChart (loadExcelData (\<lambda>_. []) scenario2_rows) ! 0) = Fin 0
   \<and> pricePerAcre (renderListings (loadExcelData (\<lambda>_. []) scenario2_rows) ! 0) = EmDash"
  by code_simp

end
